theory Spec2Isabelle
  imports Complex_Main "HOL-Library.Sublist"
begin

section \<open>Python strings\<close>

text \<open>
  A Python \<open>str\<close> is modelled as a \<open>string\<close>, a list of 8-bit characters read as the code
  points below 256. The character classes are those of \<open>str.isspace\<close> (also the regex
  class \<open>\s\<close>), of the regex class \<open>\w\<close> (\<open>str.isalnum\<close> or an underscore) and of the
  regex class \<open>\d\<close> on that range.
\<close>

definition code :: "char \<Rightarrow> nat" where
  "code c = of_char c"

definition is_space :: "char \<Rightarrow> bool" where
  "is_space c = ((9 \<le> code c \<and> code c \<le> 13) \<or> (28 \<le> code c \<and> code c \<le> 32)
                 \<or> code c = 133 \<or> code c = 160)"

definition is_digit :: "char \<Rightarrow> bool" where
  "is_digit c = (48 \<le> code c \<and> code c \<le> 57)"

definition is_word :: "char \<Rightarrow> bool" where
  "is_word c = (is_digit c \<or> (65 \<le> code c \<and> code c \<le> 90) \<or> code c = 95
                \<or> (97 \<le> code c \<and> code c \<le> 122)
                \<or> code c = 170 \<or> code c = 178 \<or> code c = 179 \<or> code c = 181
                \<or> code c = 185 \<or> code c = 186 \<or> (188 \<le> code c \<and> code c \<le> 190)
                \<or> (192 \<le> code c \<and> code c \<le> 214) \<or> (216 \<le> code c \<and> code c \<le> 246)
                \<or> 248 \<le> code c)"

definition digit_val :: "char \<Rightarrow> int" where
  "digit_val c = int (code c) - 48"

text \<open>\<open>s.strip()\<close>: whitespace removed at both ends.\<close>

definition strip :: "string \<Rightarrow> string" where
  "strip s = rev (dropWhile is_space (rev (dropWhile is_space s)))"

text \<open>
  \<open>s.split(sep)\<close> for a non-empty separator: the occurrences of \<open>sep\<close> are found from
  the left, without overlap; \<open>cur\<close> holds the characters of the current piece, reversed.
\<close>

fun split_from :: "string \<Rightarrow> string \<Rightarrow> string \<Rightarrow> string list" where
  "split_from cur sep [] = [rev cur]"
| "split_from cur sep (c # cs) =
     (if sep \<noteq> [] \<and> prefix sep (c # cs)
      then rev cur # split_from [] sep (drop (length sep - 1) cs)
      else split_from (c # cur) sep cs)"

definition split :: "string \<Rightarrow> string \<Rightarrow> string list" where
  "split s sep = split_from [] sep s"

section \<open>The tag pattern\<close>

text \<open>
  \<open>re.findall(r'\[(\w+)\s+"([^"]*)"\]', pgn)\<close>. The three repetitions are each followed
  by a character outside their class, so the greedy match is the only one:
  \<open>match_tag\<close> matches the pattern at the head of the text and returns the two groups
  and the rest of the text. \<open>findall\<close> scans from the left and goes on after a match.
\<close>

definition match_tag :: "string \<Rightarrow> (string \<times> string \<times> string) option" where
  "match_tag s =
     (case s of
        [] \<Rightarrow> None
      | c # r \<Rightarrow>
          if c \<noteq> CHR ''['' then None
          else let k = takeWhile is_word r; r1 = dropWhile is_word r;
                   r2 = dropWhile is_space r1
               in if k = [] \<or> r2 = r1 then None
                  else (case r2 of
                          [] \<Rightarrow> None
                        | q # r3 \<Rightarrow>
                            if q \<noteq> CHR 0x22 then None
                            else let v = takeWhile (\<lambda>x. x \<noteq> CHR 0x22) r3;
                                     r4 = dropWhile (\<lambda>x. x \<noteq> CHR 0x22) r3
                                 in (case r4 of
                                       q' # b # r5 \<Rightarrow>
                                         if b = CHR '']'' then Some (k, v, r5) else None
                                     | _ \<Rightarrow> None)))"

function findall_tags :: "string \<Rightarrow> (string \<times> string) list" where
  "findall_tags s =
     (case match_tag s of
        Some (k, v, r) \<Rightarrow> (k, v) # findall_tags r
      | None \<Rightarrow> (case s of [] \<Rightarrow> [] | c # cs \<Rightarrow> findall_tags cs))"
  by pat_completeness auto
termination
proof -
  have le: "\<And>P (xs :: string). length (dropWhile P xs) \<le> length xs"
    by (rule length_dropWhile_le)
  have shorter: "length r < length s" if m: "match_tag s = Some (k, v, r)" for s k v r
  proof -
    from m obtain c t q r3 q' b where s: "s = c # t"
      and r2: "dropWhile is_space (dropWhile is_word t) = q # r3"
      and r4: "dropWhile (\<lambda>x. x \<noteq> CHR 0x22) r3 = q' # b # r"
      unfolding match_tag_def Let_def
      by (simp split: list.splits if_splits)
    have "length r < length (dropWhile (\<lambda>x. x \<noteq> CHR 0x22) r3)" using r4 by simp
    also have "\<dots> \<le> length r3" by (rule le)
    also have "\<dots> < length (dropWhile is_space (dropWhile is_word t))" using r2 by simp
    also have "\<dots> \<le> length (dropWhile is_word t)" by (rule le)
    also have "\<dots> \<le> length t" by (rule le)
    finally show ?thesis using s by simp
  qed
  show ?thesis
    by (relation "measure length") (auto dest: shorter)
qed

declare findall_tags.simps [simp del]

text \<open>
  \<open>dict(pairs)\<close>: a later pair replaces an earlier one with the same key, so a lookup
  finds the last pair of that key. \<open>tags.get(k)\<close> and \<open>tags.get(k, d)\<close>:
\<close>

definition dict_get :: "(string \<times> string) list \<Rightarrow> string \<Rightarrow> string option" where
  "dict_get tags k = map_of (rev tags) k"

definition dict_get_default :: "(string \<times> string) list \<Rightarrow> string \<Rightarrow> string \<Rightarrow> string" where
  "dict_get_default tags k d = (case dict_get tags k of Some v \<Rightarrow> v | None \<Rightarrow> d)"

text \<open>
  \<open>tags.get(a) or tags.get(b) or tags.get(c, "")\<close>: a missing tag (\<open>None\<close>) and an empty
  value are both false, and the last operand is returned as it is.
\<close>

definition truthy :: "string option \<Rightarrow> bool" where
  "truthy x = (case x of Some v \<Rightarrow> v \<noteq> [] | None \<Rightarrow> False)"

definition get_or3 :: "(string \<times> string) list \<Rightarrow> string \<Rightarrow> string \<Rightarrow> string \<Rightarrow> string" where
  "get_or3 tags a b c =
     (if truthy (dict_get tags a) then the (dict_get tags a)
      else if truthy (dict_get tags b) then the (dict_get tags b)
      else dict_get_default tags c [])"

section \<open>Timestamps\<close>

datatype py_error = ValueError | EngineError | AttributeError

text \<open>
  \<open>datetime.strptime(text, "%Y.%m.%d %H:%M:%S")\<close>. The library turns the format into
  the regular expression
  \<open>(\d\d\d\d)\.(1[0-2]|0[1-9]|[1-9])\.(3[0-1]|[1-2]\d|0[1-9]|[1-9]| [1-9])\s+\<close>
  \<open>(2[0-3]|[0-1]\d|\d):([0-5]\d|\d):(6[0-1]|[0-5]\d|\d)\<close>, matches it at the start of
  the text, and raises \<open>ValueError\<close> when there is no match, when text is left over
  after the match, or when the fields are not a date and time. Each piece of the
  expression is a function from the text to the list of its matches (value and rest),
  in the order a backtracking matcher tries them; the head of the list of complete
  matches is the match the library uses.
\<close>

type_synonym 'a matcher = "string \<Rightarrow> ('a \<times> string) list"

definition alt2 :: "(char \<Rightarrow> bool) \<Rightarrow> (char \<Rightarrow> bool) \<Rightarrow> int matcher" where
  "alt2 p q s =
     (case s of
        a # b # r \<Rightarrow> if p a \<and> q b then [(10 * digit_val a + digit_val b, r)] else []
      | _ \<Rightarrow> [])"

definition alt1 :: "(char \<Rightarrow> bool) \<Rightarrow> int matcher" where
  "alt1 p s = (case s of a # r \<Rightarrow> if p a then [(digit_val a, r)] else [] | _ \<Rightarrow> [])"

definition between :: "nat \<Rightarrow> nat \<Rightarrow> char \<Rightarrow> bool" where
  "between lo hi c = (lo \<le> code c \<and> code c \<le> hi)"

definition m_year :: "int matcher" where
  "m_year s =
     (case s of
        a # b # c # d # r \<Rightarrow>
          if is_digit a \<and> is_digit b \<and> is_digit c \<and> is_digit d
          then [(1000 * digit_val a + 100 * digit_val b + 10 * digit_val c + digit_val d, r)]
          else []
      | _ \<Rightarrow> [])"

definition m_month :: "int matcher" where
  "m_month s = alt2 (between 49 49) (between 48 50) s @ alt2 (between 48 48) (between 49 57) s
               @ alt1 (between 49 57) s"

definition m_day :: "int matcher" where
  "m_day s = alt2 (between 51 51) (between 48 49) s @ alt2 (between 49 50) is_digit s
             @ alt2 (between 48 48) (between 49 57) s @ alt1 (between 49 57) s
             @ (case s of a # r \<Rightarrow> if a = CHR '' '' then alt1 (between 49 57) r else []
                | _ \<Rightarrow> [])"

definition m_hour :: "int matcher" where
  "m_hour s = alt2 (between 50 50) (between 48 51) s @ alt2 (between 48 49) is_digit s
              @ alt1 is_digit s"

definition m_minute :: "int matcher" where
  "m_minute s = alt2 (between 48 53) is_digit s @ alt1 is_digit s"

definition m_second :: "int matcher" where
  "m_second s = alt2 (between 54 54) (between 48 49) s @ alt2 (between 48 53) is_digit s
                @ alt1 is_digit s"

definition m_lit :: "char \<Rightarrow> unit matcher" where
  "m_lit c s = (case s of a # r \<Rightarrow> if a = c then [((), r)] else [] | _ \<Rightarrow> [])"

text \<open>\<open>\s+\<close>: one or more whitespace characters, the longest run first.\<close>

definition m_spaces :: "unit matcher" where
  "m_spaces s = map (\<lambda>n. ((), drop n s)) (rev [1 ..< Suc (length (takeWhile is_space s))])"

definition m_then :: "'a matcher \<Rightarrow> ('a \<Rightarrow> 'b matcher) \<Rightarrow> 'b matcher" where
  "m_then m f s = concat (map (\<lambda>(x, r). f x r) (m s))"

definition m_return :: "'a \<Rightarrow> 'a matcher" where
  "m_return x s = [(x, s)]"

definition m_format :: "(int \<times> int \<times> int \<times> int \<times> int \<times> int) matcher" where
  "m_format =
     m_then m_year (\<lambda>y. m_then (m_lit CHR ''.'') (\<lambda>_.
     m_then m_month (\<lambda>mo. m_then (m_lit CHR ''.'') (\<lambda>_.
     m_then m_day (\<lambda>d. m_then m_spaces (\<lambda>_.
     m_then m_hour (\<lambda>h. m_then (m_lit CHR '':'') (\<lambda>_.
     m_then m_minute (\<lambda>mi. m_then (m_lit CHR '':'') (\<lambda>_.
     m_then m_second (\<lambda>se. m_return (y, mo, d, h, mi, se))))))))))))"

definition is_leap :: "int \<Rightarrow> bool" where
  "is_leap y = (y mod 4 = 0 \<and> (0 < y mod 100 \<or> y mod 400 = 0))"

definition days_in_month :: "int \<Rightarrow> int \<Rightarrow> int" where
  "days_in_month y m =
     (if m = 2 then (if is_leap y then 29 else 28)
      else if m = 4 \<or> m = 6 \<or> m = 9 \<or> m = 11 then 30 else 31)"

definition days_before_year :: "int \<Rightarrow> int" where
  "days_before_year y = (y - 1) * 365 + (y - 1) div 4 - (y - 1) div 100 + (y - 1) div 400"

definition days_before_month :: "int \<Rightarrow> int \<Rightarrow> int" where
  "days_before_month y m = (\<Sum>k \<leftarrow> [1 ..< nat m]. days_in_month y (int k))"

definition ymd2ord :: "int \<Rightarrow> int \<Rightarrow> int \<Rightarrow> int" where
  "ymd2ord y m d = days_before_year y + days_before_month y m + d"

text \<open>
  \<open>int(dt.replace(tzinfo=timezone.utc).timestamp())\<close>: the seconds from 1970-01-01
  (day 719163 of the proleptic Gregorian calendar) to the date and time, read as UTC.
\<close>

definition utc_timestamp :: "int \<times> int \<times> int \<times> int \<times> int \<times> int \<Rightarrow> int" where
  "utc_timestamp f =
     (case f of (y, mo, d, h, mi, se) \<Rightarrow>
        (ymd2ord y mo d - 719163) * 86400 + h * 3600 + mi * 60 + se)"

definition valid_datetime :: "int \<times> int \<times> int \<times> int \<times> int \<times> int \<Rightarrow> bool" where
  "valid_datetime f =
     (case f of (y, mo, d, h, mi, se) \<Rightarrow>
        1 \<le> y \<and> y \<le> 9999 \<and> 1 \<le> mo \<and> mo \<le> 12 \<and> 1 \<le> d \<and> d \<le> days_in_month y mo
        \<and> 0 \<le> h \<and> h \<le> 23 \<and> 0 \<le> mi \<and> mi \<le> 59 \<and> 0 \<le> se \<and> se \<le> 59)"

definition strptime :: "string \<Rightarrow> py_error + (int \<times> int \<times> int \<times> int \<times> int \<times> int)" where
  "strptime s =
     (case m_format s of
        [] \<Rightarrow> Inl ValueError
      | (f, r) # _ \<Rightarrow>
          if r \<noteq> [] then Inl ValueError
          else if valid_datetime f then Inr f else Inl ValueError)"

section \<open>The batch parser\<close>

record game =
  url :: string
  pgn :: string
  end_time :: int
  time_control :: string
  white :: string
  black :: string

definition event_sep :: string where
  "event_sep = [CHR 0x0A, CHR 0x0A] @ ''[Event''"

text \<open>The body of the loop of \<open>parse_pgn_games\<close>, for block \<open>i\<close> of the split.\<close>

definition parse_block :: "nat \<Rightarrow> string \<Rightarrow> game" where
  "parse_block i blk0 =
     (let blk = (if i > 0 then ''[Event'' @ blk0 else blk0);
          p = strip blk;
          tags = findall_tags p;
          date = get_or3 tags ''EndDate'' ''UTCDate'' ''Date'';
          time_str = get_or3 tags ''EndTime'' ''UTCTime'' ''StartTime'';
          end_ts = (case strptime (date @ '' '' @ time_str) of
                      Inr dt \<Rightarrow> utc_timestamp dt
                    | Inl e \<Rightarrow> 0)
      in \<lparr> url = dict_get_default tags ''Link'' [],
           pgn = p,
           end_time = end_ts,
           time_control = dict_get_default tags ''TimeControl'' [],
           white = dict_get_default tags ''White'' [],
           black = dict_get_default tags ''Black'' [] \<rparr>)"

definition parse_pgn_games :: "string \<Rightarrow> game list" where
  "parse_pgn_games raw_pgn_text =
     (let blocks = split raw_pgn_text event_sep
      in map (\<lambda>(i, blk). parse_block i blk) (enumerate 0 blocks))"

text \<open>
  The same function with its exceptions written out. The only call that can raise is
  \<open>datetime.strptime\<close>; it stands, with the conversion to a timestamp, inside
  \<open>try: ... except Exception: end_ts = 0\<close>. A raise is the value \<open>Inl\<close>, \<open>try_except\<close> hands
  it to the handler, and an \<open>Inl\<close> that reaches the loop ends the function with it.
\<close>

definition try_except :: "(py_error + 'a) \<Rightarrow> (py_error \<Rightarrow> py_error + 'a) \<Rightarrow> py_error + 'a" where
  "try_except body handler = (case body of Inl e \<Rightarrow> handler e | Inr v \<Rightarrow> Inr v)"

definition end_timestamp :: "string \<Rightarrow> string \<Rightarrow> py_error + int" where
  "end_timestamp date time_str =
     (case strptime (date @ '' '' @ time_str) of
        Inl e \<Rightarrow> Inl e
      | Inr dt \<Rightarrow> Inr (utc_timestamp dt))"

definition parse_block_exc :: "nat \<Rightarrow> string \<Rightarrow> py_error + game" where
  "parse_block_exc i blk0 =
     (let blk = (if i > 0 then ''[Event'' @ blk0 else blk0);
          p = strip blk;
          tags = findall_tags p;
          date = get_or3 tags ''EndDate'' ''UTCDate'' ''Date'';
          time_str = get_or3 tags ''EndTime'' ''UTCTime'' ''StartTime''
      in case try_except (end_timestamp date time_str) (\<lambda>e. Inr 0) of
           Inl e \<Rightarrow> Inl e
         | Inr end_ts \<Rightarrow>
             Inr \<lparr> url = dict_get_default tags ''Link'' [],
                   pgn = p,
                   end_time = end_ts,
                   time_control = dict_get_default tags ''TimeControl'' [],
                   white = dict_get_default tags ''White'' [],
                   black = dict_get_default tags ''Black'' [] \<rparr>)"

fun parse_loop :: "nat \<Rightarrow> string list \<Rightarrow> game list \<Rightarrow> py_error + game list" where
  "parse_loop i [] games = Inr games"
| "parse_loop i (blk # blks) games =
     (case parse_block_exc i blk of
        Inl e \<Rightarrow> Inl e
      | Inr g \<Rightarrow> parse_loop (Suc i) blks (games @ [g]))"

definition parse_pgn_games_exc :: "string \<Rightarrow> py_error + game list" where
  "parse_pgn_games_exc raw_pgn_text = parse_loop 0 (split raw_pgn_text event_sep) []"

text \<open>
  Text as it is joined from blocks: \<open>sep.join(blocks)\<close>. It says what a batch of game
  blocks looks like; the parser does not use it.
\<close>

fun join_blocks :: "string \<Rightarrow> string list \<Rightarrow> string" where
  "join_blocks sep [] = []"
| "join_blocks sep [b] = b"
| "join_blocks sep (b # c # bs) = b @ sep @ join_blocks sep (c # bs)"

section \<open>The game store\<close>

text \<open>
  The table \<open>games\<close> with its primary key \<open>url\<close>: a map from the key to the other
  columns. \<open>evaluation_data\<close> is \<open>NULL\<close> (\<open>None\<close>) in a row that was just inserted; the
  JSON text the viewer stores there is kept as the record it encodes.
\<close>

record eval_data =
  scores :: "real list"
  is_mate :: "bool list"
  wdl_probs :: "(real \<times> real \<times> real) list"
  depth :: nat

record row =
  r_pgn :: string
  r_end_time :: int
  r_white :: string
  r_black :: string
  r_time_control :: string
  evaluation_data :: "eval_data option"

type_synonym games_table = "string \<rightharpoonup> row"

definition new_row :: "game \<Rightarrow> row" where
  "new_row g = \<lparr> r_pgn = pgn g, r_end_time = end_time g, r_white = white g, r_black = black g,
                 r_time_control = time_control g, evaluation_data = None \<rparr>"

text \<open>
  \<open>INSERT OR IGNORE INTO games (url, pgn, end_time, white, black, time_control)\<close>:
  the new table and \<open>cur.rowcount\<close>.
\<close>

definition insert_or_ignore :: "games_table \<Rightarrow> game \<Rightarrow> games_table \<times> nat" where
  "insert_or_ignore db g =
     (case db (url g) of
        Some r \<Rightarrow> (db, 0)
      | None \<Rightarrow> (db(url g \<mapsto> new_row g), 1))"

text \<open>The loop of \<open>fetch_current_month_games_and_save_to_db\<close> over the parsed games.\<close>

fun save_loop :: "games_table \<Rightarrow> nat \<Rightarrow> game list \<Rightarrow> games_table \<times> nat" where
  "save_loop db new_count [] = (db, new_count)"
| "save_loop db new_count (g # gs) =
     (case insert_or_ignore db g of
        (db', rowcount) \<Rightarrow>
          save_loop db' (if rowcount \<noteq> 0 then new_count + 1 else new_count) gs)"

definition save_to_db :: "games_table \<Rightarrow> game list \<Rightarrow> games_table \<times> nat" where
  "save_to_db db games = save_loop db 0 games"

text \<open>\<open>UPDATE games SET evaluation_data = ? WHERE url = ?\<close>\<close>

definition set_evaluation_data :: "games_table \<Rightarrow> string \<Rightarrow> eval_data \<Rightarrow> games_table" where
  "set_evaluation_data db u ed =
     (case db u of
        None \<Rightarrow> db
      | Some r \<Rightarrow> db(u \<mapsto> r\<lparr>evaluation_data := Some ed\<rparr>))"

text \<open>A sequence of such updates, in order.\<close>

definition evaluation_writes :: "(string \<times> eval_data) list \<Rightarrow> games_table \<Rightarrow> games_table" where
  "evaluation_writes ws db = fold (\<lambda>(u, ed) d. set_evaluation_data d u ed) ws db"

section \<open>The move replay\<close>

text \<open>
  The chess library's board is a starting position and the moves played on it: the
  position shown is a function of the two. A position is named by its FEN text, a move
  by its UCI text. \<open>chess.Board()\<close> is the standard starting position with no move
  played; \<open>board.push(move)\<close> plays a move.
\<close>

type_synonym move = string

record board =
  root :: string
  move_stack :: "move list"

definition STARTING_FEN :: string where
  "STARTING_FEN = ''rnbqkbnr/pppppppp/8/8/8/8/PPPPPPPP/RNBQKBNR w KQkq - 0 1''"

definition Board :: board where
  "Board = \<lparr> root = STARTING_FEN, move_stack = [] \<rparr>"

definition push :: "move \<Rightarrow> board \<Rightarrow> board" where
  "push m b = b\<lparr> move_stack := move_stack b @ [m] \<rparr>"

text \<open>
  The game object that \<open>chess.pgn.read_game\<close> returns: the headers and the moves of the
  main line. \<open>game.board()\<close> is the position of the FEN header when the game has one, and
  the standard starting position otherwise.
\<close>

record pgn_game =
  headers :: "(string \<times> string) list"
  mainline_moves :: "move list"

definition game_board :: "pgn_game \<Rightarrow> board" where
  "game_board g = \<lparr> root = dict_get_default (headers g) ''FEN'' STARTING_FEN, move_stack = [] \<rparr>"

text \<open>The part of the viewer's state that the navigation reads and writes.\<close>

record viewer =
  moves :: "move list"
  idx :: nat
  board :: board

text \<open>\<open>on_game_select\<close>: the moves of the game, the game's own first position, index 0.\<close>

definition on_game_select :: "pgn_game \<Rightarrow> viewer" where
  "on_game_select g = \<lparr> moves = mainline_moves g, idx = 0, board = game_board g \<rparr>"

text \<open>
  \<open>go_next\<close>. Setting the slider to the new index calls \<open>on_slider_change\<close> with the index
  the viewer already has, which does nothing; drawing the board is left out.
\<close>

definition go_next :: "viewer \<Rightarrow> viewer" where
  "go_next s =
     (if idx s < length (moves s)
      then s\<lparr> board := push (moves s ! idx s) (board s), idx := idx s + 1 \<rparr>
      else s)"

text \<open>
  \<open>on_slider_change\<close>: when the target differs from the index, the board is a new
  \<open>chess.Board()\<close> with \<open>moves[i]\<close> pushed for every \<open>i\<close> in \<open>range(target_idx)\<close> that is
  below \<open>len(moves)\<close>. The slider runs from 0 to the number of moves, so the target is a
  natural number.
\<close>

definition on_slider_change :: "nat \<Rightarrow> viewer \<Rightarrow> viewer" where
  "on_slider_change target_idx s =
     (if target_idx \<noteq> idx s
      then s\<lparr> board := foldl (\<lambda>b i. if i < length (moves s) then push (moves s ! i) b else b)
                            Board [0 ..< target_idx],
              idx := target_idx \<rparr>
      else s)"

section \<open>The evaluation run\<close>

text \<open>
  The engine's score, as the chess library gives it: centipawns, mate in a number of
  moves (negative when the side is being mated), or mate already given. A score comes
  with the side to move (\<open>True\<close> is White) and is turned to a side's point of view by
  \<open>pov\<close>, which negates it for the other side.
\<close>

datatype score = Cp int | Mate int | MateGiven

record pov_score =
  relative :: score
  turn :: bool

definition neg_score :: "score \<Rightarrow> score" where
  "neg_score s =
     (case s of
        Cp c \<Rightarrow> Cp (- c)
      | Mate n \<Rightarrow> (if n = 0 then MateGiven else Mate (- n))
      | MateGiven \<Rightarrow> Mate 0)"

definition pov :: "bool \<Rightarrow> pov_score \<Rightarrow> score" where
  "pov color ps = (if turn ps = color then relative ps else neg_score (relative ps))"

definition score_is_mate :: "score \<Rightarrow> bool" where
  "score_is_mate s = (case s of Cp c \<Rightarrow> False | Mate n \<Rightarrow> True | MateGiven \<Rightarrow> True)"

text \<open>\<open>score_obj.score(mate_score=m)\<close>; \<open>m = None\<close> is the call without the argument.\<close>

definition score_value :: "int option \<Rightarrow> score \<Rightarrow> int option" where
  "score_value mate_score s =
     (case s of
        Cp c \<Rightarrow> Some c
      | Mate n \<Rightarrow>
          (case mate_score of
             None \<Rightarrow> None
           | Some m \<Rightarrow> Some (if n > 0 then m - n else - m - n))
      | MateGiven \<Rightarrow> mate_score)"

text \<open>
  \<open>score_obj.wdl()\<close>: for centipawns the library computes the wins from the score and the
  losses from the negated score with its win-rate model, here the parameter \<open>wins\<close>, and
  the draws as what is left of 1000; a mate is a certain win or loss.
\<close>

definition wdl :: "(int \<Rightarrow> int) \<Rightarrow> score \<Rightarrow> int \<times> int \<times> int" where
  "wdl wins s =
     (case s of
        Cp c \<Rightarrow> (wins c, 1000 - wins c - wins (- c), wins (- c))
      | Mate n \<Rightarrow> (if n > 0 then (1000, 0, 0) else (0, 0, 1000))
      | MateGiven \<Rightarrow> (1000, 0, 0))"

text \<open>
  \<open>engine.analyse(board, Limit(depth=depth))["score"]\<close>: the engine is outside the program
  and keeps state, so its answer is a function of the number of the call, the position
  and the depth; an engine that fails raises, which is the value \<open>Inl\<close>.
\<close>

type_synonym engine = "nat \<Rightarrow> board \<Rightarrow> nat \<Rightarrow> py_error + pov_score"

text \<open>\<open>str.lower()\<close> on the code points below 256.\<close>

definition lower_char :: "char \<Rightarrow> char" where
  "lower_char c =
     (if (65 \<le> code c \<and> code c \<le> 90) \<or> (192 \<le> code c \<and> code c \<le> 214)
         \<or> (216 \<le> code c \<and> code c \<le> 222)
      then char_of (code c + 32) else c)"

definition lower :: "string \<Rightarrow> string" where
  "lower s = map lower_char s"

text \<open>The side whose point of view the scores take: Black when the user plays Black.\<close>

definition current_player_color_for_pov :: "string \<Rightarrow> pgn_game \<Rightarrow> bool" where
  "current_player_color_for_pov current_user g =
     (let pgn_white = lower (dict_get_default (headers g) ''White'' []);
          pgn_black = lower (dict_get_default (headers g) ''Black'' []);
          current_user_lower = lower current_user
      in if pgn_white = current_user_lower then True
         else if pgn_black = current_user_lower then False
         else True)"

text \<open>The entry of one position: the score and the mate flag.\<close>

definition score_entry :: "score \<Rightarrow> real \<times> bool" where
  "score_entry score_obj =
     (if score_is_mate score_obj
      then (real_of_int (the (score_value (Some 10) score_obj)), True)
      else ((case score_value None score_obj of
               Some c \<Rightarrow> real_of_int c / 100
             | None \<Rightarrow> 0), False))"

text \<open>
  The loop of \<open>calculate_stockfish_scores\<close> over the moves: \<open>c\<close> is the number of the next
  engine call. The progress notices sent to the window do not change the result and are
  left out.
\<close>

fun scores_loop ::
  "engine \<Rightarrow> bool \<Rightarrow> nat \<Rightarrow> nat \<Rightarrow> board \<Rightarrow> move list \<Rightarrow> real list \<times> bool list
     \<Rightarrow> py_error + real list \<times> bool list" where
  "scores_loop eng color dpt c b [] acc = Inr acc"
| "scores_loop eng color dpt c b (m # ms) (scs, mts) =
     (let b' = push m b in
      case eng c b' dpt of
        Inl e \<Rightarrow> Inl e
      | Inr info \<Rightarrow>
          (case score_entry (pov color info) of
             (s, mt) \<Rightarrow> scores_loop eng color dpt (Suc c) b' ms (scs @ [s], mts @ [mt])))"

definition calculate_stockfish_scores ::
  "engine \<Rightarrow> string \<Rightarrow> pgn_game \<Rightarrow> nat \<Rightarrow> nat \<Rightarrow> py_error + real list \<times> bool list" where
  "calculate_stockfish_scores eng current_user g dpt c =
     (let b = game_board g; color = current_player_color_for_pov current_user g in
      case eng c b dpt of
        Inl e \<Rightarrow> Inl e
      | Inr info \<Rightarrow>
          (case score_entry (pov color info) of
             (s, mt) \<Rightarrow> scores_loop eng color dpt (Suc c) b (mainline_moves g) ([s], [mt])))"

text \<open>
  \<open>calculate_wdl_probabilities\<close>: the permille figures divided by \<open>1000.0\<close>. The floating
  point quotients are taken as the real quotients.
\<close>

definition wdl_entry :: "int \<times> int \<times> int \<Rightarrow> real \<times> real \<times> real" where
  "wdl_entry w =
     (case w of (wins, draws, losses) \<Rightarrow>
        (real_of_int wins / 1000, real_of_int draws / 1000, real_of_int losses / 1000))"

fun wdl_loop ::
  "engine \<Rightarrow> (int \<Rightarrow> int) \<Rightarrow> bool \<Rightarrow> nat \<Rightarrow> nat \<Rightarrow> board \<Rightarrow> move list
     \<Rightarrow> (real \<times> real \<times> real) list \<Rightarrow> py_error + (real \<times> real \<times> real) list" where
  "wdl_loop eng wins color dpt c b [] wps = Inr wps"
| "wdl_loop eng wins color dpt c b (m # ms) wps =
     (let b' = push m b in
      case eng c b' dpt of
        Inl e \<Rightarrow> Inl e
      | Inr info \<Rightarrow>
          wdl_loop eng wins color dpt (Suc c) b' ms
            (wps @ [wdl_entry (wdl wins (pov color info))]))"

definition calculate_wdl_probabilities ::
  "engine \<Rightarrow> (int \<Rightarrow> int) \<Rightarrow> string \<Rightarrow> pgn_game \<Rightarrow> nat \<Rightarrow> nat
     \<Rightarrow> py_error + (real \<times> real \<times> real) list" where
  "calculate_wdl_probabilities eng wins current_user g dpt c =
     (let b = game_board g; color = current_player_color_for_pov current_user g in
      case eng c b dpt of
        Inl e \<Rightarrow> Inl e
      | Inr info \<Rightarrow>
          wdl_loop eng wins color dpt (Suc c) b (mainline_moves g)
            [wdl_entry (wdl wins (pov color info))])"

text \<open>
  \<open>run_evaluation_analysis\<close>: the game read from the PGN text (\<open>None\<close> when the text holds
  no game, and then \<open>game.board()\<close> raises), the two passes over the positions, and the
  update of the row. An exception leaves the function before the update; the result is
  the exception or the evaluation, and the table.
\<close>

definition run_evaluation_analysis ::
  "engine \<Rightarrow> (int \<Rightarrow> int) \<Rightarrow> string \<Rightarrow> games_table \<Rightarrow> string \<Rightarrow> pgn_game option \<Rightarrow> nat \<Rightarrow> nat
     \<Rightarrow> (py_error + eval_data) \<times> games_table" where
  "run_evaluation_analysis eng wins current_user db u game dpt c =
     (case game of
        None \<Rightarrow> (Inl AttributeError, db)
      | Some g \<Rightarrow>
          (case calculate_stockfish_scores eng current_user g dpt c of
             Inl e \<Rightarrow> (Inl e, db)
           | Inr (scs, mts) \<Rightarrow>
               (case calculate_wdl_probabilities eng wins current_user g dpt
                       (c + Suc (length (mainline_moves g))) of
                  Inl e \<Rightarrow> (Inl e, db)
                | Inr wps \<Rightarrow>
                    (let ed = \<lparr> scores = scs, is_mate = mts, wdl_probs = wps, depth = dpt \<rparr>
                     in (Inr ed, set_evaluation_data db u ed)))))"

text \<open>The position of ply \<open>i\<close> of a game, as both passes reach it.\<close>

definition position :: "pgn_game \<Rightarrow> nat \<Rightarrow> board" where
  "position g i = foldl (\<lambda>b m. push m b) (game_board g) (take i (mainline_moves g))"

section \<open>The rating window\<close>

record rating_point =
  rp_date :: int
  elo :: int
  rp_time_control :: string






section \<open>Sample inputs and reference definitions\<close>

definition nl :: char where "nl = CHR 0x0A"
definition dq :: char where "dq = CHR 0x22"
definition tag_line :: "string \<Rightarrow> string \<Rightarrow> string" where
  "tag_line k v = ''['' @ k @ '' '' @ [dq] @ v @ [dq] @ '']'' @ [nl]"

text \<open>
  A PGN header as text: one line \<open>[Key "Value"]\<close> for each tag, the key a non-empty word
  and the value without a double quote. Move text holds no tag when none of its brackets
  is followed by a word character (a clock comment \<open>{[%clk 0:03:00]}\<close> is not a tag).
\<close>

definition tag_ok :: "string \<times> string \<Rightarrow> bool" where
  "tag_ok kv = (case kv of (k, v) \<Rightarrow> k \<noteq> [] \<and> list_all is_word k \<and> list_all (\<lambda>c. c \<noteq> dq) v)"

definition header_text :: "(string \<times> string) list \<Rightarrow> string" where
  "header_text tags = concat (map (\<lambda>(k, v). tag_line k v) tags)"

fun no_tag_start :: "string \<Rightarrow> bool" where
  "no_tag_start [] = True"
| "no_tag_start [c] = True"
| "no_tag_start (c # d # cs) = (\<not> (c = CHR ''['' \<and> is_word d) \<and> no_tag_start (d # cs))"

definition game_linked :: string where
  "game_linked = tag_line ''Event'' ''A'' @ tag_line ''Link'' ''https://www.chess.com/game/live/1''
                 @ [nl] @ ''1. e4 {[%clk 0:03:00]} *''"

definition game_a :: string where
  "game_a = tag_line ''Event'' ''A'' @ [nl] @ ''1. e4 *''"

definition rest_b :: string where
  "rest_b = '' '' @ [dq] @ ''B'' @ [dq] @ '']'' @ [nl, nl] @ ''1. d4 *'' @ [nl]"

text \<open>
  The value \<open>tags.get(a) or tags.get(b) or tags.get(c, "")\<close> said another way: the value
  of the first tag of the list that is present and not empty, or the empty text.
\<close>

definition first_nonempty :: "(string \<times> string) list \<Rightarrow> string list \<Rightarrow> string" where
  "first_nonempty tags ks =
     (case find (\<lambda>k. truthy (dict_get tags k)) ks of
        Some k \<Rightarrow> the (dict_get tags k)
      | None \<Rightarrow> [])"

text \<open>
  The end time as C5 words it, by pairs: the first of the pairs EndDate+EndTime,
  UTCDate+UTCTime, Date+StartTime with both tags present, parsed; 0 when there is no such
  pair or the parse fails. It is compared with what \<open>parse_block\<close> computes.
\<close>

definition pair_end_time :: "(string \<times> string) list \<Rightarrow> int" where
  "pair_end_time tags =
     (case find (\<lambda>(d, t). truthy (dict_get tags d) \<and> truthy (dict_get tags t))
             [(''EndDate'', ''EndTime''), (''UTCDate'', ''UTCTime''), (''Date'', ''StartTime'')] of
        None \<Rightarrow> 0
      | Some (d, t) \<Rightarrow>
          (case strptime (the (dict_get tags d) @ '' '' @ the (dict_get tags t)) of
             Inr dt \<Rightarrow> utc_timestamp dt
           | Inl e \<Rightarrow> 0))"

definition game_mixed :: string where
  "game_mixed = tag_line ''EndDate'' ''2024.01.02'' @ tag_line ''UTCDate'' ''2024.01.01''
                @ tag_line ''UTCTime'' ''12:00:00'' @ [nl] @ ''1. e4 *''"

definition game_bad_time :: string where
  "game_bad_time = tag_line ''EndDate'' ''2024.01.01'' @ tag_line ''EndTime'' ''25:00:00''
                   @ [nl] @ ''1. e4 *''"

definition game_noon :: string where
  "game_noon = tag_line ''EndDate'' ''2024.01.01'' @ tag_line ''EndTime'' ''12:00:00''
               @ ''1. e4 e5 *''"

definition rec_first :: game where
  "rec_first = \<lparr> url = ''u1'', pgn = ''1. e4 *'', end_time = 5, time_control = ''600'',
                 white = ''alice'', black = ''bob'' \<rparr>"

definition rec_second :: game where
  "rec_second = \<lparr> url = ''u1'', pgn = ''1. d4 *'', end_time = 7, time_control = ''600'',
                  white = ''alice'', black = ''bob'' \<rparr>"

definition eval_sample :: eval_data where
  "eval_sample = \<lparr> scores = [0, 1/2], is_mate = [False, False],
                   wdl_probs = [(1/2, 1/4, 1/4), (3/5, 1/5, 1/5)], depth = 10 \<rparr>"

definition game_from_position :: pgn_game where
  "game_from_position =
     \<lparr> headers = [(''SetUp'', ''1''), (''FEN'', ''4k3/8/8/8/8/8/4P3/4K3 w - - 0 1'')],
       mainline_moves = [''e2e4'', ''e8e7''] \<rparr>"

definition game_standard :: pgn_game where
  "game_standard =
     \<lparr> headers = [(''White'', ''alice''), (''Black'', ''bob'')],
       mainline_moves = [''e2e4'', ''e7e5''] \<rparr>"

definition p1 :: rating_point where "p1 = \<lparr> rp_date = 100, elo = 1500, rp_time_control = ''600'' \<rparr>"
definition p2 :: rating_point where "p2 = \<lparr> rp_date = 200, elo = 1510, rp_time_control = ''180'' \<rparr>"

definition game_alice :: pgn_game where
  "game_alice = \<lparr> headers = [(''White'', ''Alice''), (''Black'', ''bob'')],
                   mainline_moves = [''e2e4'', ''e7e5''] \<rparr>"

definition game_no_moves :: pgn_game where
  "game_no_moves = \<lparr> headers = [(''White'', ''Alice''), (''Black'', ''bob'')],
                      mainline_moves = [] \<rparr>"

definition engine_steady :: engine where
  "engine_steady n b d = Inr \<lparr> relative = Cp 30, turn = True \<rparr>"

definition engine_dies :: engine where
  "engine_dies n b d = (if n = 2 then Inl EngineError else Inr \<lparr> relative = Cp 30, turn = True \<rparr>)"

definition engine_mate_in_12 :: engine where
  "engine_mate_in_12 n b d = Inr \<lparr> relative = Mate 12, turn = True \<rparr>"

definition wins_sample :: "int \<Rightarrow> int" where
  "wins_sample cp = 400 + cp"

definition db_sample :: games_table where
  "db_sample = Map.empty(''u1'' \<mapsto> new_row rec_first)"

text \<open>A win, draw and loss triple that sums to 1 within 0.01.\<close>

definition sums_to_one :: "real \<times> real \<times> real \<Rightarrow> bool" where
  "sums_to_one t = (case t of (w, d, l) \<Rightarrow> \<bar>w + d + l - 1\<bar> \<le> 1 / 100)"

definition eval_steady :: eval_data where
  "eval_steady = \<lparr> scores = [3/10, 3/10, 3/10], is_mate = [False, False, False],
                   wdl_probs = [(43/100, 1/5, 37/100), (43/100, 1/5, 37/100), (43/100, 1/5, 37/100)],
                   depth = 10 \<rparr>"

section \<open>Properties of the batch parser\<close>

lemma split_from_skip:
  "(\<And>p. p < length b \<Longrightarrow> \<not> prefix sep (drop p (b @ t)))
   \<Longrightarrow> split_from cur sep (b @ t) = split_from (rev b @ cur) sep t"
proof (induction b arbitrary: cur)
  case Nil
  then show ?case by simp
next
  case (Cons c b)
  have "\<not> prefix sep (c # b @ t)" using Cons.prems[of 0] by simp
  moreover have "split_from (c # cur) sep (b @ t) = split_from (rev b @ c # cur) sep t"
  proof (rule Cons.IH)
    fix p assume "p < length b"
    then show "\<not> prefix sep (drop p (b @ t))" using Cons.prems[of "Suc p"] by simp
  qed
  ultimately show ?case by simp
qed

lemma split_from_sep:
  "sep \<noteq> [] \<Longrightarrow> split_from cur sep (sep @ t) = rev cur # split_from [] sep t"
  by (cases sep) simp_all

lemma border:
  assumes "prefix s (u @ s @ t)" "u \<noteq> []" "\<not> prefix s u"
  shows "\<exists>j. 0 < j \<and> j < length s \<and> drop j s = take (length s - j) s"
proof -
  from assms(1,3) obtain us where s: "s = u @ us" and p: "prefix us (s @ t)"
    using prefix_append[of s u "s @ t"] by blast
  have ne: "us \<noteq> []"
  proof
    assume "us = []"
    with s have "s = u" by simp
    with assms(3) show False by simp
  qed
  from p obtain w where w: "s @ t = us @ w" by (auto simp: prefix_def)
  have "take (length us) (s @ t) = us" using w by simp
  moreover have "take (length us) (s @ t) = take (length us) s" using s by simp
  ultimately have "us = take (length us) s" by simp
  moreover have "drop (length u) s = us" using s by simp
  moreover have "length s - length u = length us" using s by simp
  ultimately have "drop (length u) s = take (length s - length u) s" by simp
  moreover have "0 < length u" using assms(2) by simp
  moreover have "length u < length s" using s ne by simp
  ultimately show ?thesis by blast
qed

lemma event_sep_no_border:
  "0 < j \<Longrightarrow> j < length event_sep \<Longrightarrow> drop j event_sep \<noteq> take (length event_sep - j) event_sep"
proof -
  assume "0 < j" "j < length event_sep"
  then have "j = 1 \<or> j = 2 \<or> j = 3 \<or> j = 4 \<or> j = 5 \<or> j = 6 \<or> j = 7" by (simp add: event_sep_def) arith
  then show ?thesis by (elim disjE) (simp_all add: event_sep_def)
qed

lemma event_sep_occurrence:
  assumes "p < length b" "prefix event_sep (drop p (b @ event_sep @ t))"
  shows "sublist event_sep b"
proof -
  let ?u = "drop p b"
  have u: "?u \<noteq> []" using assms(1) by simp
  have pre: "prefix event_sep (?u @ event_sep @ t)" using assms by simp
  have "prefix event_sep ?u"
  proof (rule ccontr)
    assume "\<not> prefix event_sep ?u"
    from border[OF pre u this] event_sep_no_border show False by blast
  qed
  then obtain w where "?u = event_sep @ w" by (auto simp: prefix_def)
  then have "b = take p b @ event_sep @ w" by (metis append_take_drop_id)
  then show ?thesis unfolding sublist_def by blast
qed

lemma split_from_last:
  assumes "\<not> sublist sep b"
  shows "split_from cur sep b = [rev cur @ b]"
proof -
  have "\<And>p. p < length b \<Longrightarrow> \<not> prefix sep (drop p (b @ []))"
  proof
    fix p assume "p < length b" "prefix sep (drop p (b @ []))"
    then obtain w where "drop p b = sep @ w" by (auto simp: prefix_def)
    then have "b = take p b @ sep @ w" by (metis append_take_drop_id)
    with assms show False unfolding sublist_def by blast
  qed
  from split_from_skip[OF this, of cur] show ?thesis by simp
qed

lemma split_join:
  assumes "\<forall>b \<in> set (b # bs). \<not> sublist event_sep b"
  shows "split_from cur event_sep (join_blocks event_sep (b # bs)) = (rev cur @ b) # bs"
  using assms
proof (induction bs arbitrary: b cur)
  case Nil
  then show ?case by (simp add: split_from_last)
next
  case (Cons c bs)
  have nb: "\<not> sublist event_sep b" using Cons.prems by simp
  have ne: "event_sep \<noteq> []" by (simp add: event_sep_def)
  let ?t = "join_blocks event_sep (c # bs)"
  have "split_from cur event_sep (b @ event_sep @ ?t) = split_from (rev b @ cur) event_sep (event_sep @ ?t)"
    by (rule split_from_skip) (use nb event_sep_occurrence in blast)
  also have "\<dots> = rev (rev b @ cur) # split_from [] event_sep ?t"
    by (rule split_from_sep[OF ne])
  also have "split_from [] event_sep ?t = (rev [] @ c) # bs"
    by (rule Cons.IH) (use Cons.prems in simp)
  finally show ?case by simp
qed

lemma pgn_parse_block: "pgn (parse_block i blk) = strip (if i > 0 then ''[Event'' @ blk else blk)"
  by (simp add: parse_block_def Let_def)

lemma pgn_enumerate:
  "0 < n \<Longrightarrow> map (pgn \<circ> (\<lambda>(i, blk). parse_block i blk)) (enumerate n rs)
     = map (\<lambda>r. strip (''[Event'' @ r)) rs"
  by (induction rs arbitrary: n) (simp_all add: pgn_parse_block)

text \<open>
  C1 (as amended). Every block of the split gives one record, in source order, and the
  record's \<open>pgn\<close> is the block's own text, trimmed: for text made of the blocks
  \<open>b0, [Event r1, [Event r2, ...\<close> joined at the boundary \<open>\n\n[Event\<close>, none of them
  holding the boundary inside, the \<open>pgn\<close> fields are exactly the trimmed blocks. No block
  is skipped: a blank block gives a record with an empty \<open>pgn\<close>.
\<close>

theorem parse_pgn_games_blocks:
  assumes "\<forall>b \<in> set (b0 # rs). \<not> sublist event_sep b"
  shows "map pgn (parse_pgn_games (join_blocks event_sep (b0 # rs)))
           = strip b0 # map (\<lambda>r. strip (''[Event'' @ r)) rs"
proof -
  have sp: "split (join_blocks event_sep (b0 # rs)) event_sep = b0 # rs"
    using split_join[OF assms, of "[]"] by (simp add: split_def)
  have "map pgn (parse_pgn_games (join_blocks event_sep (b0 # rs)))
          = pgn (parse_block 0 b0)
            # map (pgn \<circ> (\<lambda>(i, blk). parse_block i blk)) (enumerate (Suc 0) rs)"
    unfolding parse_pgn_games_def Let_def sp by simp
  also have "\<dots> = strip b0 # map (\<lambda>r. strip (''[Event'' @ r)) rs"
    by (simp only: pgn_enumerate[of "Suc 0" rs, simplified] pgn_parse_block) simp
  finally show ?thesis .
qed

theorem parse_pgn_games_blocks_witness:
  "\<not> sublist event_sep game_a \<and> \<not> sublist event_sep rest_b
   \<and> map pgn (parse_pgn_games (game_a @ event_sep @ rest_b))
       = [game_a, tag_line ''Event'' ''B'' @ [nl] @ ''1. d4 *'']"
proof -
  have h: "\<forall>b \<in> set [game_a, rest_b]. \<not> sublist event_sep b" by code_simp
  have s1: "strip game_a = game_a" by code_simp
  have s2: "strip (''[Event'' @ rest_b) = tag_line ''Event'' ''B'' @ [nl] @ ''1. d4 *''"
    by code_simp
  from parse_pgn_games_blocks[OF h] h s1 s2 show ?thesis by simp
qed

text \<open>
  C1 as stated fails: text that starts with a blank line before its only game block
  gives two records, the first one with an empty \<open>pgn\<close>.
\<close>

theorem parse_pgn_games_blank_block:
  "length (parse_pgn_games ([nl, nl] @ ''[Event '' @ [dq] @ ''A'' @ [dq] @ '']'' @ [nl, nl] @ ''1. e4 *'')) = 2
   \<and> pgn (hd (parse_pgn_games ([nl, nl] @ ''[Event '' @ [dq] @ ''A'' @ [dq] @ '']'' @ [nl, nl] @ ''1. e4 *''))) = []"
  by code_simp

lemma get_or3_first_nonempty: "get_or3 tags a b c = first_nonempty tags [a, b, c]"
  by (auto simp: get_or3_def first_nonempty_def dict_get_default_def truthy_def
      split: option.splits)

lemma tags_bad_time:
  "findall_tags (strip game_bad_time) = [(''EndDate'', ''2024.01.01''), (''EndTime'', ''25:00:00'')]"
  by code_simp

lemma tags_noon:
  "findall_tags (strip game_noon) = [(''EndDate'', ''2024.01.01''), (''EndTime'', ''12:00:00'')]"
  by code_simp

lemma tags_mixed:
  "findall_tags (strip game_mixed)
     = [(''EndDate'', ''2024.01.02''), (''UTCDate'', ''2024.01.01''), (''UTCTime'', ''12:00:00'')]"
  by code_simp

lemma strptime_bad: "strptime ''2024.01.01 25:00:00'' = Inl ValueError"
  by code_simp

lemma strptime_noon: "strptime ''2024.01.01 12:00:00'' = Inr (2024, 1, 1, 12, 0, 0)"
  by code_simp

lemma strptime_next_noon: "strptime ''2024.01.02 12:00:00'' = Inr (2024, 1, 2, 12, 0, 0)"
  by code_simp

lemma timestamp_noon: "utc_timestamp (2024, 1, 1, 12, 0, 0) = 1704110400"
  by code_simp

lemma timestamp_next_noon: "utc_timestamp (2024, 1, 2, 12, 0, 0) = 1704196800"
  by code_simp

lemma parse_block_exc_eq: "parse_block_exc i blk = Inr (parse_block i blk)"
  by (simp add: parse_block_exc_def parse_block_def try_except_def end_timestamp_def Let_def
      split: sum.splits)

lemma parse_loop_eq:
  "parse_loop i blks games
     = Inr (games @ map (\<lambda>(j, b). parse_block j b) (enumerate i blks))"
  by (induction blks arbitrary: i games) (simp_all add: parse_block_exc_eq)

lemma end_time_on_raise:
  "isl (end_timestamp
          (get_or3 (findall_tags (pgn (parse_block i blk))) ''EndDate'' ''UTCDate'' ''Date'')
          (get_or3 (findall_tags (pgn (parse_block i blk))) ''EndTime'' ''UTCTime'' ''StartTime''))
   \<Longrightarrow> end_time (parse_block i blk) = 0"
  by (auto simp: parse_block_def end_timestamp_def Let_def split: sum.splits)

lemma get_or3_bad_time:
  "get_or3 (findall_tags (strip game_bad_time)) ''EndDate'' ''UTCDate'' ''Date'' = ''2024.01.01''"
  "get_or3 (findall_tags (strip game_bad_time)) ''EndTime'' ''UTCTime'' ''StartTime'' = ''25:00:00''"
  unfolding tags_bad_time by code_simp+

text \<open>
  C9. \<open>parse_pgn_games_exc\<close> is the function with its exceptions written out: the
  timestamp computation may fail, the handler of the \<open>try\<close> maps every failure to 0, and
  the loop would stop at the first block whose body fails. It returns normally on every
  text, with the records of \<open>parse_pgn_games\<close>, one for each block of the split at
  \<open>\n\n[Event\<close>; the body of the loop returns normally on every block; a record whose
  timestamp computation fails has \<open>end_time = 0\<close>; and on the empty text the result is
  one record with every text field empty and \<open>end_time = 0\<close>.
\<close>

theorem parse_pgn_games_total:
  "parse_pgn_games_exc raw = Inr (parse_pgn_games raw)
   \<and> length (parse_pgn_games raw) = length (split raw event_sep)
   \<and> parse_block_exc i blk = Inr (parse_block i blk)
   \<and> (isl (end_timestamp
          (get_or3 (findall_tags (pgn (parse_block i blk))) ''EndDate'' ''UTCDate'' ''Date'')
          (get_or3 (findall_tags (pgn (parse_block i blk))) ''EndTime'' ''UTCTime'' ''StartTime''))
        \<longrightarrow> end_time (parse_block i blk) = 0)
   \<and> parse_pgn_games_exc [] = Inr [\<lparr>url = [], pgn = [], end_time = 0, time_control = [], white = [], black = []\<rparr>]"
proof (intro conjI impI)
  show e: "parse_pgn_games_exc raw = Inr (parse_pgn_games raw)" for raw
    by (simp add: parse_pgn_games_exc_def parse_pgn_games_def parse_loop_eq)
  show "length (parse_pgn_games raw) = length (split raw event_sep)"
    by (simp add: parse_pgn_games_def Let_def)
  show "parse_block_exc i blk = Inr (parse_block i blk)"
    by (rule parse_block_exc_eq)
  show "end_time (parse_block i blk) = 0"
    if "isl (end_timestamp
          (get_or3 (findall_tags (pgn (parse_block i blk))) ''EndDate'' ''UTCDate'' ''Date'')
          (get_or3 (findall_tags (pgn (parse_block i blk))) ''EndTime'' ''UTCTime'' ''StartTime''))"
    using that by (rule end_time_on_raise)
  have "parse_pgn_games [] = [\<lparr>url = [], pgn = [], end_time = 0, time_control = [], white = [], black = []\<rparr>]"
    by code_simp
  then show "parse_pgn_games_exc [] = Inr [\<lparr>url = [], pgn = [], end_time = 0, time_control = [], white = [], black = []\<rparr>]"
    by (simp only: e)
qed

theorem parse_pgn_games_total_witness:
  "parse_pgn_games_exc game_bad_time = Inr (parse_pgn_games game_bad_time)
   \<and> length (parse_pgn_games game_bad_time) = 1
   \<and> isl (end_timestamp ''2024.01.01'' ''25:00:00'')
   \<and> end_time (parse_block 0 game_bad_time) = 0"
proof -
  note T = parse_pgn_games_total[of game_bad_time 0 game_bad_time]
  have p: "pgn (parse_block 0 game_bad_time) = strip game_bad_time"
    by (simp add: pgn_parse_block)
  have r: "isl (end_timestamp ''2024.01.01'' ''25:00:00'')"
    by (simp add: end_timestamp_def strptime_bad)
  have d: "length (split game_bad_time event_sep) = 1" by code_simp
  have e0: "end_time (parse_block 0 game_bad_time) = 0"
    using T r by (simp only: p get_or3_bad_time)
  from T d r e0 show ?thesis by simp
qed

text \<open>
  C5 (as amended). The date is the first non-empty one of the tags EndDate, UTCDate, Date
  and the time the first non-empty one of EndTime, UTCTime, StartTime, each chosen on its
  own; the two are parsed as \<open>"%Y.%m.%d %H:%M:%S"\<close> in UTC, \<open>end_time\<close> is 0 when the
  parse fails, and the record is emitted either way (one record for each block).
\<close>

theorem end_time_choice:
  "end_time (parse_block i blk) =
     (case strptime (first_nonempty (findall_tags (pgn (parse_block i blk)))
                       [''EndDate'', ''UTCDate'', ''Date'']
                     @ '' '' @
                     first_nonempty (findall_tags (pgn (parse_block i blk)))
                       [''EndTime'', ''UTCTime'', ''StartTime'']) of
        Inr dt \<Rightarrow> utc_timestamp dt
      | Inl e \<Rightarrow> 0)
   \<and> length (parse_pgn_games raw) = length (split raw event_sep)"
  by (simp add: parse_block_def parse_pgn_games_def Let_def get_or3_first_nonempty)

theorem end_time_choice_witness:
  "end_time (parse_block 0 game_bad_time) = 0
   \<and> end_time (parse_block 0 game_noon) = 1704110400
   \<and> length (parse_pgn_games game_bad_time) = 1"
proof -
  have p1: "pgn (parse_block 0 game_bad_time) = strip game_bad_time"
    and p2: "pgn (parse_block 0 game_noon) = strip game_noon"
    by (simp_all add: pgn_parse_block)
  have a: "first_nonempty (findall_tags (strip game_bad_time)) [''EndDate'', ''UTCDate'', ''Date'']
             @ '' '' @
           first_nonempty (findall_tags (strip game_bad_time)) [''EndTime'', ''UTCTime'', ''StartTime'']
           = ''2024.01.01 25:00:00''"
    unfolding tags_bad_time by code_simp
  have b: "first_nonempty (findall_tags (strip game_noon)) [''EndDate'', ''UTCDate'', ''Date'']
             @ '' '' @
           first_nonempty (findall_tags (strip game_noon)) [''EndTime'', ''UTCTime'', ''StartTime'']
           = ''2024.01.01 12:00:00''"
    unfolding tags_noon by code_simp
  have d: "length (split game_bad_time event_sep) = 1" by code_simp
  have e1: "end_time (parse_block 0 game_bad_time) = 0"
    using end_time_choice[of 0 game_bad_time game_bad_time]
    by (simp only: p1 a strptime_bad sum.case)
  have e2: "end_time (parse_block 0 game_noon) = 1704110400"
    using end_time_choice[of 0 game_noon game_bad_time]
    by (simp only: p2 b strptime_noon sum.case timestamp_noon)
  have e3: "length (parse_pgn_games game_bad_time) = 1"
    using end_time_choice[of 0 game_bad_time game_bad_time] by (simp only: d)
  from e1 e2 e3 show ?thesis by simp
qed

text \<open>
  C5 as stated fails: with EndDate, UTCDate and UTCTime but no EndTime, the code joins
  EndDate with UTCTime (2024-01-02 12:00:00), where the preference by pairs gives
  UTCDate with UTCTime (2024-01-01 12:00:00).
\<close>

theorem end_time_mixed_pair:
  "map end_time (parse_pgn_games game_mixed) = [1704196800]
   \<and> pair_end_time (findall_tags (strip game_mixed)) = 1704110400"
proof
  have sp: "split game_mixed event_sep = [game_mixed]" by code_simp
  have g: "get_or3 (findall_tags (strip game_mixed)) ''EndDate'' ''UTCDate'' ''Date'' @ '' '' @
           get_or3 (findall_tags (strip game_mixed)) ''EndTime'' ''UTCTime'' ''StartTime''
           = ''2024.01.02 12:00:00''"
    unfolding tags_mixed by code_simp
  have "end_time (parse_block 0 game_mixed) = 1704196800"
    using g by (simp add: parse_block_def Let_def strptime_next_noon timestamp_next_noon)
  then show "map end_time (parse_pgn_games game_mixed) = [1704196800]"
    by (simp add: parse_pgn_games_def sp)
  have f: "find (\<lambda>(d, t). truthy (dict_get (findall_tags (strip game_mixed)) d)
                         \<and> truthy (dict_get (findall_tags (strip game_mixed)) t))
             [(''EndDate'', ''EndTime''), (''UTCDate'', ''UTCTime''), (''Date'', ''StartTime'')]
           = Some (''UTCDate'', ''UTCTime'')"
    unfolding tags_mixed by code_simp
  have v: "the (dict_get (findall_tags (strip game_mixed)) ''UTCDate'') @ '' '' @
           the (dict_get (findall_tags (strip game_mixed)) ''UTCTime'') = ''2024.01.01 12:00:00''"
    unfolding tags_mixed by code_simp
  show "pair_end_time (findall_tags (strip game_mixed)) = 1704110400"
    unfolding pair_end_time_def f
    using v by (simp add: strptime_noon timestamp_noon)
qed

section \<open>Properties of the game store\<close>

lemma save_loop_lookup:
  "fst (save_loop db n gs) u =
     (case db u of Some r \<Rightarrow> Some r
      | None \<Rightarrow> map_option new_row (find (\<lambda>g. url g = u) gs))"
proof (induction gs arbitrary: db n)
  case Nil
  then show ?case by (simp split: option.splits)
next
  case (Cons g gs)
  show ?case
  proof (cases "db (url g)")
    case None
    then show ?thesis
      by (simp add: insert_or_ignore_def Cons.IH split: option.splits)
  next
    case (Some r)
    then show ?thesis
      by (auto simp add: insert_or_ignore_def Cons.IH split: option.splits)
  qed
qed

lemma save_loop_present:
  "\<forall>g \<in> set gs. db (url g) \<noteq> None \<Longrightarrow> save_loop db n gs = (db, n)"
  by (induction gs arbitrary: n) (auto simp: insert_or_ignore_def)

lemma save_loop_defined:
  assumes "g \<in> set gs"
  shows "fst (save_loop db n gs) (url g) \<noteq> None"
proof -
  have "find (\<lambda>h. url h = url g) gs \<noteq> None"
    using assms by (auto simp: find_None_iff)
  then show ?thesis
    by (simp add: save_loop_lookup split: option.splits)
qed

lemma set_evaluation_data_defined:
  "(set_evaluation_data db u ed k = None) = (db k = None)"
  by (simp add: set_evaluation_data_def split: option.splits)

lemma evaluation_writes_defined:
  "(evaluation_writes ws db k = None) = (db k = None)"
  unfolding evaluation_writes_def
proof (induction ws arbitrary: db)
  case Nil
  then show ?case by simp
next
  case (Cons w ws)
  obtain u ed where w: "w = (u, ed)" by (cases w)
  show ?case by (simp add: w Cons.IH set_evaluation_data_defined)
qed

text \<open>
  C2. Saving the same games a second time, after any evaluation data was written in
  between, leaves the table as it is and counts no new row.
\<close>

theorem save_to_db_idempotent:
  "save_to_db (evaluation_writes ws (fst (save_to_db db games))) games
     = (evaluation_writes ws (fst (save_to_db db games)), 0)"
proof -
  let ?db = "evaluation_writes ws (fst (save_to_db db games))"
  have "\<forall>g \<in> set games. ?db (url g) \<noteq> None"
    by (simp add: evaluation_writes_defined save_to_db_def save_loop_defined)
  then show ?thesis
    unfolding save_to_db_def by (rule save_loop_present)
qed

theorem save_to_db_idempotent_witness:
  "snd (save_to_db (evaluation_writes [(''u1'', eval_sample)]
                      (fst (save_to_db Map.empty [rec_first, rec_second])))
          [rec_first, rec_second]) = 0
   \<and> fst (save_to_db (evaluation_writes [(''u1'', eval_sample)]
                      (fst (save_to_db Map.empty [rec_first, rec_second])))
          [rec_first, rec_second]) ''u1''
       = Some ((new_row rec_first)\<lparr>evaluation_data := Some eval_sample\<rparr>)"
proof -
  have "evaluation_writes [(''u1'', eval_sample)]
          (fst (save_to_db Map.empty [rec_first, rec_second])) ''u1''
        = Some ((new_row rec_first)\<lparr>evaluation_data := Some eval_sample\<rparr>)"
    by (simp add: evaluation_writes_def set_evaluation_data_def save_to_db_def
        insert_or_ignore_def rec_first_def rec_second_def)
  with save_to_db_idempotent[of "[(''u1'', eval_sample)]" Map.empty "[rec_first, rec_second]"]
  show ?thesis by simp
qed

lemma url_parse_block:
  "url (parse_block i blk) = dict_get_default (findall_tags (pgn (parse_block i blk))) ''Link'' []"
  by (simp add: parse_block_def Let_def)

lemma class_facts:
  "\<not> is_word (CHR '' '')" "is_space (CHR '' '')" "\<not> is_space dq" "\<not> is_word dq"
  "nl \<noteq> CHR ''[''"
  by code_simp+

lemma match_tag_not_bracket: "c \<noteq> CHR ''['' \<Longrightarrow> match_tag (c # cs) = None"
  by (simp add: match_tag_def)

lemma match_tag_no_word: "\<not> is_word d \<Longrightarrow> match_tag (c # d # cs) = None"
  by (simp add: match_tag_def Let_def)

lemma match_tag_single: "match_tag [c] = None"
  by (simp add: match_tag_def Let_def)

lemma findall_no_tag_start: "no_tag_start s \<Longrightarrow> findall_tags s = []"
proof (induction s rule: no_tag_start.induct)
  case 1
  show ?case by (simp add: findall_tags.simps match_tag_def)
next
  case (2 c)
  have "findall_tags [] = []" by (simp add: findall_tags.simps match_tag_def)
  then show ?case by (simp add: findall_tags.simps[of "[c]"] match_tag_single)
next
  case (3 c d cs)
  then have m: "match_tag (c # d # cs) = None"
    by (cases "c = CHR ''[''") (simp_all add: match_tag_not_bracket match_tag_no_word)
  from 3 have "findall_tags (d # cs) = []" by simp
  then show ?case by (simp add: findall_tags.simps[of "c # d # cs"] m)
qed

lemma match_tagI:
  assumes "takeWhile is_word r = k" "k \<noteq> []" "dropWhile is_word r = r1"
    "dropWhile is_space r1 = CHR 0x22 # r3" "CHR 0x22 # r3 \<noteq> r1"
    "takeWhile (\<lambda>x. x \<noteq> CHR 0x22) r3 = v"
    "dropWhile (\<lambda>x. x \<noteq> CHR 0x22) r3 = q' # CHR '']'' # r5"
  shows "match_tag (CHR ''['' # r) = Some (k, v, r5)"
  using assms by (simp add: match_tag_def Let_def)

lemma match_tag_tag_line:
  assumes "tag_ok (k, v)"
  shows "match_tag (tag_line k v @ rest) = Some (k, v, nl # rest)"
proof -
  from assms have k: "k \<noteq> []" and kw: "\<forall>c \<in> set k. is_word c"
    and vq: "\<forall>c \<in> set v. c \<noteq> CHR 0x22"
    by (simp_all add: tag_ok_def list_all_iff dq_def)
  have cf: "\<not> is_word (CHR '' '')" "is_space (CHR '' '')" "\<not> is_space (CHR 0x22)"
    using class_facts by (simp_all add: dq_def)
  let ?w = "v @ CHR 0x22 # CHR '']'' # nl # rest"
  let ?t = "CHR 0x22 # ?w"
  have s: "tag_line k v @ rest = CHR ''['' # (k @ CHR '' '' # ?t)"
    by (simp add: tag_line_def dq_def)
  have tw: "takeWhile is_word (k @ CHR '' '' # ?t) = k"
    using kw cf(1) by (simp add: takeWhile_append2)
  have dw: "dropWhile is_word (k @ CHR '' '' # ?t) = CHR '' '' # ?t"
    using kw cf(1) by (simp add: dropWhile_append2)
  have ds: "dropWhile is_space (CHR '' '' # ?t) = ?t"
    using cf(2,3) by simp
  have ne: "?t \<noteq> CHR '' '' # ?t" by simp
  have tv: "takeWhile (\<lambda>x. x \<noteq> CHR 0x22) ?w = v"
    using vq by (simp add: takeWhile_append2)
  have dv: "dropWhile (\<lambda>x. x \<noteq> CHR 0x22) ?w = CHR 0x22 # CHR '']'' # nl # rest"
    using vq by (simp add: dropWhile_append2)
  show ?thesis
    unfolding s by (rule match_tagI[OF tw k dw ds ne tv dv])
qed

lemma findall_tag_line:
  assumes "tag_ok (k, v)"
  shows "findall_tags (tag_line k v @ rest) = (k, v) # findall_tags rest"
proof -
  have a: "findall_tags (tag_line k v @ rest) = (k, v) # findall_tags (nl # rest)"
    by (simp add: findall_tags.simps[of "tag_line k v @ rest"] match_tag_tag_line[OF assms])
  have b: "findall_tags (nl # rest) = findall_tags rest"
    by (simp add: findall_tags.simps[of "nl # rest"] match_tag_not_bracket class_facts(5))
  from a b show ?thesis by simp
qed

lemma findall_header:
  "list_all tag_ok tags \<Longrightarrow> findall_tags (header_text tags @ rest) = tags @ findall_tags rest"
proof (induction tags)
  case Nil
  then show ?case by (simp add: header_text_def)
next
  case (Cons t tags)
  obtain k v where t: "t = (k, v)" by (cases t)
  from Cons.prems have ok: "tag_ok (k, v)" and oks: "list_all tag_ok tags" by (simp_all add: t)
  have "header_text (t # tags) @ rest = tag_line k v @ (header_text tags @ rest)"
    by (simp add: header_text_def t)
  then show ?case
    by (simp add: findall_tag_line[OF ok] Cons.IH[OF oks] t)
qed

lemma url_of_header:
  assumes "list_all tag_ok tags" and "no_tag_start movetext"
    and "strip (if i > 0 then ''[Event'' @ blk else blk) = header_text tags @ movetext"
  shows "url (parse_block i blk) = (case map_of (rev tags) ''Link'' of Some v \<Rightarrow> v | None \<Rightarrow> [])"
proof -
  have "findall_tags (pgn (parse_block i blk)) = tags"
    unfolding pgn_parse_block assms(3)
    by (simp add: findall_header[OF assms(1)] findall_no_tag_start[OF assms(2)])
  then show ?thesis
    by (simp add: url_parse_block dict_get_default_def dict_get_def)
qed

text \<open>
  C10. The \<open>url\<close> of every parsed record is what the tag pattern finds for Link in its
  text, or empty; for a record whose text is a header of well-formed tag lines followed
  by move text in which no tag begins, that is the value of the last Link line of the
  header, or empty when the header has none. After saving a batch, the row stored under
  the empty key is the row that was there before, or else the first record of the batch
  with an empty \<open>url\<close>: later records without a Link tag are not stored.
\<close>

theorem missing_link_collapse:
  "url (parse_block i blk) = dict_get_default (findall_tags (pgn (parse_block i blk))) ''Link'' []
   \<and> (list_all tag_ok tags \<and> no_tag_start movetext
      \<and> strip (if i > 0 then ''[Event'' @ blk else blk) = header_text tags @ movetext
     \<longrightarrow> url (parse_block i blk) = (case map_of (rev tags) ''Link'' of Some v \<Rightarrow> v | None \<Rightarrow> []))
   \<and> fst (save_to_db db games) [] =
       (case db [] of Some r \<Rightarrow> Some r
        | None \<Rightarrow> map_option new_row (find (\<lambda>g. url g = []) games))"
proof (intro conjI impI)
  show "url (parse_block i blk) = dict_get_default (findall_tags (pgn (parse_block i blk))) ''Link'' []"
    by (rule url_parse_block)
  show "url (parse_block i blk) = (case map_of (rev tags) ''Link'' of Some v \<Rightarrow> v | None \<Rightarrow> [])"
    if "list_all tag_ok tags \<and> no_tag_start movetext
        \<and> strip (if i > 0 then ''[Event'' @ blk else blk) = header_text tags @ movetext"
    using that url_of_header by blast
  show "fst (save_to_db db games) [] =
       (case db [] of Some r \<Rightarrow> Some r
        | None \<Rightarrow> map_option new_row (find (\<lambda>g. url g = []) games))"
    unfolding save_to_db_def by (rule save_loop_lookup)
qed

theorem missing_link_collapse_witness:
  "url (parse_block 0 game_linked) = ''https://www.chess.com/game/live/1''
   \<and> map url (parse_pgn_games (game_a @ event_sep @ rest_b)) = [[], []]
   \<and> map_option r_pgn (fst (save_to_db Map.empty (parse_pgn_games (game_a @ event_sep @ rest_b))) [])
       = Some game_a"
proof -
  let ?raw = "game_a @ event_sep @ rest_b"
  let ?tl = "[(''Event'', ''A''), (''Link'', ''https://www.chess.com/game/live/1'')]"
  let ?ml = "nl # ''1. e4 {[%clk 0:03:00]} *''"
  have l1: "list_all tag_ok ?tl" by code_simp
  have l2: "no_tag_start ?ml" by code_simp
  have l3: "strip (if (0::nat) > 0 then ''[Event'' @ game_linked else game_linked) = header_text ?tl @ ?ml"
    by code_simp
  have a1: "list_all tag_ok [(''Event'', ''A'')]" by code_simp
  have a2: "no_tag_start (nl # ''1. e4 *'')" by code_simp
  have a3: "strip (if (0::nat) > 0 then ''[Event'' @ game_a else game_a)
              = header_text [(''Event'', ''A'')] @ (nl # ''1. e4 *'')"
    by code_simp
  have b1: "list_all tag_ok [(''Event'', ''B'')]" by code_simp
  have b2: "no_tag_start (nl # ''1. d4 *'')" by code_simp
  have b3: "strip (if (1::nat) > 0 then ''[Event'' @ rest_b else rest_b)
              = header_text [(''Event'', ''B'')] @ (nl # ''1. d4 *'')"
    by code_simp
  have sp: "split ?raw event_sep = [game_a, rest_b]" by code_simp
  have P: "parse_pgn_games ?raw = [parse_block 0 game_a, parse_block 1 rest_b]"
    by (simp add: parse_pgn_games_def sp)
  have s1: "strip game_a = game_a" by code_simp
  have ul: "url (parse_block 0 game_linked) = ''https://www.chess.com/game/live/1''"
    using missing_link_collapse[where tags = ?tl and movetext = ?ml and i = 0 and blk = game_linked
        and db = Map.empty and games = "[]", THEN conjunct2, THEN conjunct1] l1 l2 l3
    by simp
  have ua: "url (parse_block 0 game_a) = []"
    using missing_link_collapse[where tags = "[(''Event'', ''A'')]" and movetext = "nl # ''1. e4 *''"
        and i = 0 and blk = game_a and db = Map.empty and games = "[]", THEN conjunct2, THEN conjunct1] a1 a2 a3
    by simp
  have ub: "url (parse_block 1 rest_b) = []"
    using missing_link_collapse[where tags = "[(''Event'', ''B'')]" and movetext = "nl # ''1. d4 *''"
        and i = 1 and blk = rest_b and db = Map.empty and games = "[]", THEN conjunct2, THEN conjunct1] b1 b2 b3
    by simp
  have "fst (save_to_db Map.empty (parse_pgn_games ?raw)) [] = Some (new_row (parse_block 0 game_a))"
    using missing_link_collapse[where tags = "[]" and movetext = "[]" and i = 0 and blk = "[]"
        and db = Map.empty and games = "parse_pgn_games ?raw", THEN conjunct2, THEN conjunct2] ua
    by (simp add: P)
  then have c: "map_option r_pgn (fst (save_to_db Map.empty (parse_pgn_games ?raw)) []) = Some game_a"
    by (simp add: new_row_def pgn_parse_block s1)
  from ul ua ub c show ?thesis by (simp add: P)
qed

section \<open>Properties of the move replay\<close>

lemma go_next_funpow:
  "k \<le> length (mainline_moves g) \<Longrightarrow>
   (go_next ^^ k) (on_game_select g)
     = \<lparr> moves = mainline_moves g, idx = k,
         board = \<lparr> root = root (game_board g), move_stack = take k (mainline_moves g) \<rparr> \<rparr>"
proof (induction k)
  case 0
  then show ?case by (simp add: on_game_select_def game_board_def)
next
  case (Suc k)
  then have "k < length (mainline_moves g)" by simp
  with Suc show ?case
    by (simp add: go_next_def push_def take_Suc_conv_app_nth)
qed

lemma slider_fold:
  "k \<le> length ms \<Longrightarrow>
   foldl (\<lambda>b i. if i < length ms then push (ms ! i) b else b) b0 [0 ..< k]
     = b0\<lparr> move_stack := move_stack b0 @ take k ms \<rparr>"
proof (induction k)
  case 0
  then show ?case by simp
next
  case (Suc k)
  then have "k < length ms" by simp
  with Suc show ?case
    by (simp add: push_def take_Suc_conv_app_nth)
qed

text \<open>
  For a game without a FEN header the jump and the repeated step agree, from every index
  the viewer can be at.
\<close>

lemma replay_consistency_standard_start:
  assumes "dict_get (headers g) ''FEN'' = None"
    and "k \<le> length (mainline_moves g)" and "j \<le> length (mainline_moves g)"
  shows "board (on_slider_change k ((go_next ^^ j) (on_game_select g)))
           = board ((go_next ^^ k) (on_game_select g))"
proof -
  have r: "root (game_board g) = STARTING_FEN"
    using assms(1) by (simp add: game_board_def dict_get_default_def)
  show ?thesis
  proof (cases "k = j")
    case True
    then show ?thesis
      by (simp add: go_next_funpow assms on_slider_change_def)
  next
    case False
    then show ?thesis
      by (simp add: go_next_funpow assms on_slider_change_def slider_fold Board_def r
          cong: if_cong)
  qed
qed

lemma replay_consistency_standard_start_example:
  "board (on_slider_change 2 ((go_next ^^ 1) (on_game_select game_standard)))
     = \<lparr> root = STARTING_FEN, move_stack = [''e2e4'', ''e7e5''] \<rparr>"
proof -
  have a: "dict_get (headers game_standard) ''FEN'' = None"
    by (simp add: game_standard_def dict_get_def)
  have b: "(2::nat) \<le> length (mainline_moves game_standard)"
    "(1::nat) \<le> length (mainline_moves game_standard)"
    by (simp_all add: game_standard_def)
  have c: "board ((go_next ^^ 2) (on_game_select game_standard))
             = \<lparr> root = STARTING_FEN, move_stack = [''e2e4'', ''e7e5''] \<rparr>"
    using a by (simp add: go_next_funpow b game_board_def dict_get_default_def)
       (simp add: game_standard_def)
  from replay_consistency_standard_start[OF a b] c show ?thesis by simp
qed

text \<open>
  C3. For a game that starts from a position of its own (a FEN header), jumping to
  index 1 replays the move on the standard starting position, while one step of \<open>go_next\<close>
  from the selected game plays it on the game's own first position: the two boards
  differ.
\<close>

theorem on_slider_change_custom_start:
  "board (on_slider_change 1 (on_game_select game_from_position))
     = \<lparr> root = STARTING_FEN, move_stack = [''e2e4''] \<rparr>
   \<and> board ((go_next ^^ 1) (on_game_select game_from_position))
     = \<lparr> root = ''4k3/8/8/8/8/8/4P3/4K3 w - - 0 1'', move_stack = [''e2e4''] \<rparr>
   \<and> board (on_slider_change 1 (on_game_select game_from_position))
     \<noteq> board ((go_next ^^ 1) (on_game_select game_from_position))"
  by (simp add: on_slider_change_def on_game_select_def go_next_def push_def Board_def
      game_board_def dict_get_default_def dict_get_def game_from_position_def STARTING_FEN_def)

section \<open>Properties of the evaluation run\<close>

lemma scores_loop_length:
  "scores_loop eng color dpt c b ms (scs, mts) = Inr (scs', mts')
   \<Longrightarrow> length scs' = length scs + length ms \<and> length mts' = length mts + length ms"
proof (induction ms arbitrary: c b scs mts)
  case Nil
  then show ?case by simp
next
  case (Cons m ms)
  from Cons.prems obtain s0 mt0 where
    r: "scores_loop eng color dpt (Suc c) (push m b) ms (scs @ [s0], mts @ [mt0])
        = Inr (scs', mts')"
    by (auto simp: Let_def split: sum.splits prod.splits)
  from Cons.IH[OF r] show ?case by simp
qed

lemma wdl_loop_length:
  "wdl_loop eng wins color dpt c b ms wps = Inr wps'
   \<Longrightarrow> length wps' = length wps + length ms"
proof (induction ms arbitrary: c b wps)
  case Nil
  then show ?case by simp
next
  case (Cons m ms)
  from Cons.prems obtain info where
    r: "wdl_loop eng wins color dpt (Suc c) (push m b) ms
          (wps @ [wdl_entry (wdl wins (pov color info))]) = Inr wps'"
    by (auto simp: Let_def split: sum.splits)
  from Cons.IH[OF r] show ?case by simp
qed

lemma wdl_entry_sum: "sums_to_one (wdl_entry (wdl wins s))"
  by (cases s) (simp_all add: sums_to_one_def wdl_entry_def wdl_def field_simps)

lemma wdl_loop_sum:
  "wdl_loop eng wins color dpt c b ms wps = Inr wps' \<Longrightarrow> list_all sums_to_one wps
   \<Longrightarrow> list_all sums_to_one wps'"
proof (induction ms arbitrary: c b wps)
  case Nil
  then show ?case by simp
next
  case (Cons m ms)
  from Cons.prems(1) obtain info where
    r: "wdl_loop eng wins color dpt (Suc c) (push m b) ms
          (wps @ [wdl_entry (wdl wins (pov color info))]) = Inr wps'"
    by (auto simp: Let_def split: sum.splits)
  have "list_all sums_to_one (wps @ [wdl_entry (wdl wins (pov color info))])"
    using Cons.prems(2) by (simp add: wdl_entry_sum)
  from Cons.IH[OF r this] show ?case .
qed

lemma calculate_stockfish_scores_length:
  assumes "calculate_stockfish_scores eng user g dpt c = Inr (scs, mts)"
  shows "length scs = Suc (length (mainline_moves g)) \<and> length mts = Suc (length (mainline_moves g))"
proof -
  from assms obtain s0 mt0 where
    r: "scores_loop eng (current_player_color_for_pov user g) dpt (Suc c) (game_board g)
          (mainline_moves g) ([s0], [mt0]) = Inr (scs, mts)"
    by (auto simp: calculate_stockfish_scores_def Let_def split: sum.splits prod.splits)
  from scores_loop_length[OF r] show ?thesis by simp
qed

lemma calculate_wdl_probabilities_shape:
  assumes "calculate_wdl_probabilities eng wins user g dpt c = Inr wps"
  shows "length wps = Suc (length (mainline_moves g)) \<and> list_all sums_to_one wps"
proof -
  from assms obtain info where
    r: "wdl_loop eng wins (current_player_color_for_pov user g) dpt (Suc c) (game_board g)
          (mainline_moves g)
          [wdl_entry (wdl wins (pov (current_player_color_for_pov user g) info))] = Inr wps"
    by (auto simp: calculate_wdl_probabilities_def Let_def split: sum.splits)
  have "list_all sums_to_one [wdl_entry (wdl wins (pov (current_player_color_for_pov user g) info))]"
    by (simp add: wdl_entry_sum)
  from wdl_loop_length[OF r] wdl_loop_sum[OF r this] show ?thesis by simp
qed

lemma color_alice: "current_player_color_for_pov ''alice'' game_alice = True"
  by code_simp

lemma moves_alice: "mainline_moves game_alice = [''e2e4'', ''e7e5'']"
  by (simp add: game_alice_def)

lemma moves_no_moves: "mainline_moves game_no_moves = []"
  by (simp add: game_no_moves_def)

lemma color_alice_no_moves: "current_player_color_for_pov ''alice'' game_no_moves = True"
  by code_simp

text \<open>
  C4. An evaluation run that succeeds on a game of \<open>N\<close> plies gives \<open>N + 1\<close> scores,
  \<open>N + 1\<close> mate flags and \<open>N + 1\<close> probability triples, every triple sums to 1 within
  0.01, and this is the evaluation stored in the row.
\<close>

theorem evaluation_shape:
  assumes "run_evaluation_analysis eng wins user db u (Some g) dpt c = (Inr ed, db')"
  shows "length (scores ed) = Suc (length (mainline_moves g))
       \<and> length (is_mate ed) = Suc (length (mainline_moves g))
       \<and> length (wdl_probs ed) = Suc (length (mainline_moves g))
       \<and> list_all sums_to_one (wdl_probs ed)
       \<and> db' = set_evaluation_data db u ed"
proof -
  from assms obtain scs mts wps where
    s: "calculate_stockfish_scores eng user g dpt c = Inr (scs, mts)" and
    w: "calculate_wdl_probabilities eng wins user g dpt (c + Suc (length (mainline_moves g))) = Inr wps" and
    e: "ed = \<lparr> scores = scs, is_mate = mts, wdl_probs = wps, depth = dpt \<rparr>" and
    d: "db' = set_evaluation_data db u ed"
    by (auto simp: run_evaluation_analysis_def Let_def split: sum.splits prod.splits)
  from calculate_stockfish_scores_length[OF s] calculate_wdl_probabilities_shape[OF w] e d
  show ?thesis by simp
qed

theorem evaluation_shape_witness:
  "run_evaluation_analysis engine_steady wins_sample ''alice'' db_sample ''u1'' (Some game_alice) 10 0
     = (Inr eval_steady, set_evaluation_data db_sample ''u1'' eval_steady)
   \<and> length (scores eval_steady) = 3 \<and> length (is_mate eval_steady) = 3
   \<and> length (wdl_probs eval_steady) = 3 \<and> list_all sums_to_one (wdl_probs eval_steady)"
proof -
  have s: "calculate_stockfish_scores engine_steady ''alice'' game_alice 10 0
             = Inr ([3/10, 3/10, 3/10], [False, False, False])"
    by (simp add: calculate_stockfish_scores_def color_alice engine_steady_def pov_def
        score_entry_def score_is_mate_def score_value_def moves_alice Let_def)
  have w: "calculate_wdl_probabilities engine_steady wins_sample ''alice'' game_alice 10 3
             = Inr [(43/100, 1/5, 37/100), (43/100, 1/5, 37/100), (43/100, 1/5, 37/100)]"
    by (simp add: calculate_wdl_probabilities_def color_alice engine_steady_def pov_def
        wdl_entry_def wdl_def wins_sample_def moves_alice Let_def)
  have n: "length (mainline_moves game_alice) = 2" by (simp add: moves_alice)
  have r: "run_evaluation_analysis engine_steady wins_sample ''alice'' db_sample ''u1''
             (Some game_alice) 10 0
           = (Inr eval_steady, set_evaluation_data db_sample ''u1'' eval_steady)"
    by (simp add: run_evaluation_analysis_def s w n eval_steady_def Let_def)
  from evaluation_shape[OF r] r n show ?thesis by simp
qed

text \<open>
  What is recorded for one position: centipawns divided by 100 and no mate flag, or the
  mate flag with 10 less the distance for a mate the side gives and the negated sum for a
  mate it suffers.
\<close>

lemma score_entry_cases:
  "score_entry (Cp c) = (real_of_int c / 100, False)"
  "0 < n \<Longrightarrow> score_entry (Mate n) = (real_of_int (10 - n), True)"
  "n \<le> 0 \<Longrightarrow> score_entry (Mate n) = (real_of_int (- 10 - n), True)"
  "score_entry MateGiven = (10, True)"
  by (simp_all add: score_entry_def score_is_mate_def score_value_def)

text \<open>
  C6. A forced mate in 12 moves for the side whose point of view is taken is recorded
  with the mate flag and the score \<open>10 - 12 = -2\<close>: the sign says the side is losing.
\<close>

theorem mate_in_twelve_scores_negative:
  "score_entry (Mate 12) = (- 2, True)
   \<and> calculate_stockfish_scores engine_mate_in_12 ''alice'' game_no_moves 30 0 = Inr ([- 2], [True])"
  by (simp add: calculate_stockfish_scores_def color_alice_no_moves engine_mate_in_12_def pov_def
      score_entry_def score_is_mate_def score_value_def moves_no_moves Let_def)

lemma scores_loop_fails:
  "i < length ms \<Longrightarrow> isl (eng (c + i) (foldl (\<lambda>b m. push m b) b (take (Suc i) ms)) dpt)
   \<Longrightarrow> isl (scores_loop eng color dpt c b ms acc)"
proof (induction ms arbitrary: c b acc i)
  case Nil
  then show ?case by simp
next
  case (Cons m ms)
  obtain scs mts where acc: "acc = (scs, mts)" by (cases acc)
  show ?case
  proof (cases "eng c (push m b) dpt")
    case (Inl e)
    then show ?thesis by (simp add: acc)
  next
    case (Inr info)
    show ?thesis
    proof (cases i)
      case 0
      with Cons.prems(2) Inr show ?thesis by simp
    next
      case (Suc i')
      have a: "i' < length ms" using Cons.prems(1) Suc by simp
      have b: "isl (eng (Suc c + i') (foldl (\<lambda>b m. push m b) (push m b) (take (Suc i') ms)) dpt)"
        using Cons.prems(2) Suc by simp
      from Cons.IH[OF a b] Inr show ?thesis
        by (simp add: acc split: prod.splits)
    qed
  qed
qed

lemma wdl_loop_fails:
  "i < length ms \<Longrightarrow> isl (eng (c + i) (foldl (\<lambda>b m. push m b) b (take (Suc i) ms)) dpt)
   \<Longrightarrow> isl (wdl_loop eng wins color dpt c b ms wps)"
proof (induction ms arbitrary: c b wps i)
  case Nil
  then show ?case by simp
next
  case (Cons m ms)
  show ?case
  proof (cases "eng c (push m b) dpt")
    case (Inl e)
    then show ?thesis by simp
  next
    case (Inr info)
    show ?thesis
    proof (cases i)
      case 0
      with Cons.prems(2) Inr show ?thesis by simp
    next
      case (Suc i')
      have a: "i' < length ms" using Cons.prems(1) Suc by simp
      have b: "isl (eng (Suc c + i') (foldl (\<lambda>b m. push m b) (push m b) (take (Suc i') ms)) dpt)"
        using Cons.prems(2) Suc by simp
      from Cons.IH[OF a b] Inr show ?thesis by simp
    qed
  qed
qed

lemma calculate_stockfish_scores_fails:
  assumes "i \<le> length (mainline_moves g)" and "isl (eng (c + i) (position g i) dpt)"
  shows "isl (calculate_stockfish_scores eng user g dpt c)"
proof (cases "eng c (game_board g) dpt")
  case (Inl e)
  then show ?thesis by (simp add: calculate_stockfish_scores_def)
next
  case (Inr info)
  show ?thesis
  proof (cases i)
    case 0
    with assms(2) Inr show ?thesis by (simp add: position_def)
  next
    case (Suc i')
    have a: "i' < length (mainline_moves g)" using assms(1) Suc by simp
    have b: "isl (eng (Suc c + i')
               (foldl (\<lambda>b m. push m b) (game_board g) (take (Suc i') (mainline_moves g))) dpt)"
      using assms(2) Suc by (simp add: position_def)
    from scores_loop_fails[where eng = eng and c = "Suc c" and i = i' and b = "game_board g"
          and ms = "mainline_moves g" and dpt = dpt, OF a b] Inr
    show ?thesis
      by (simp add: calculate_stockfish_scores_def Let_def split: prod.splits)
  qed
qed

lemma calculate_wdl_probabilities_fails:
  assumes "i \<le> length (mainline_moves g)" and "isl (eng (c + i) (position g i) dpt)"
  shows "isl (calculate_wdl_probabilities eng wins user g dpt c)"
proof (cases "eng c (game_board g) dpt")
  case (Inl e)
  then show ?thesis by (simp add: calculate_wdl_probabilities_def)
next
  case (Inr info)
  show ?thesis
  proof (cases i)
    case 0
    with assms(2) Inr show ?thesis by (simp add: position_def)
  next
    case (Suc i')
    have a: "i' < length (mainline_moves g)" using assms(1) Suc by simp
    have b: "isl (eng (Suc c + i')
               (foldl (\<lambda>b m. push m b) (game_board g) (take (Suc i') (mainline_moves g))) dpt)"
      using assms(2) Suc by (simp add: position_def)
    from wdl_loop_fails[where eng = eng and c = "Suc c" and i = i' and b = "game_board g"
          and ms = "mainline_moves g" and dpt = dpt, OF a b] Inr
    show ?thesis
      by (simp add: calculate_wdl_probabilities_def Let_def)
  qed
qed

text \<open>
  C7. When the engine fails on any of the calls of a run (call \<open>i\<close> of the first pass or
  call \<open>i\<close> of the second, at the position of ply \<open>i\<close>), the run ends with an exception
  and the table is what it was before the run.
\<close>

theorem engine_failure_aborts:
  assumes "i \<le> length (mainline_moves g)"
    and "isl (eng (c + i) (position g i) dpt)
         \<or> isl (eng (c + Suc (length (mainline_moves g)) + i) (position g i) dpt)"
  shows "\<exists>e. run_evaluation_analysis eng wins user db u (Some g) dpt c = (Inl e, db)"
proof (cases "calculate_stockfish_scores eng user g dpt c")
  case (Inl e)
  then show ?thesis by (simp add: run_evaluation_analysis_def)
next
  case (Inr r)
  obtain scs mts where r: "r = (scs, mts)" by (cases r)
  have "\<not> isl (calculate_stockfish_scores eng user g dpt c)" using Inr by simp
  with calculate_stockfish_scores_fails[where eng = eng and g = g and i = i and dpt = dpt
        and c = c and user = user, OF assms(1)] assms(2)
  have "isl (eng (c + Suc (length (mainline_moves g)) + i) (position g i) dpt)" by blast
  from calculate_wdl_probabilities_fails[where eng = eng and g = g and i = i and dpt = dpt
        and c = "c + Suc (length (mainline_moves g))", OF assms(1) this]
  obtain e where "calculate_wdl_probabilities eng wins user g dpt
                    (c + Suc (length (mainline_moves g))) = Inl e"
    by (auto simp: isl_def)
  with Inr r show ?thesis by (simp add: run_evaluation_analysis_def)
qed

theorem engine_failure_aborts_witness:
  "(2::nat) \<le> length (mainline_moves game_alice)
   \<and> isl (engine_dies (0 + 2) (position game_alice 2) 10)
   \<and> run_evaluation_analysis engine_dies wins_sample ''alice'' db_sample ''u1'' (Some game_alice) 10 0
       = (Inl EngineError, db_sample)"
proof -
  have a: "(2::nat) \<le> length (mainline_moves game_alice)" by (simp add: moves_alice)
  have b: "isl (engine_dies (0 + 2) (position game_alice 2) 10)
           \<or> isl (engine_dies (0 + Suc (length (mainline_moves game_alice)) + 2)
                  (position game_alice 2) 10)"
    by (simp add: engine_dies_def)
  have s: "calculate_stockfish_scores engine_dies ''alice'' game_alice 10 0 = Inl EngineError"
    by (simp add: calculate_stockfish_scores_def color_alice engine_dies_def pov_def
        score_entry_def score_is_mate_def score_value_def moves_alice Let_def)
  from engine_failure_aborts[where eng = engine_dies and g = game_alice and i = 2 and dpt = 10
        and c = 0 and wins = wins_sample and user = "''alice''" and db = db_sample
        and u = "''u1''", OF a b] s a
  show ?thesis by (simp add: run_evaluation_analysis_def engine_dies_def)
qed

section \<open>Properties of the rating window\<close>














end
